theory Spec2Isabelle
  imports Main "HOL-Library.Sublist"
begin

section \<open>The installation engine of lip: \<^verbatim>\<open>internal/install/install.go\<close>\<close>

text \<open>
  The file holds two functions, \<^verbatim>\<open>Install\<close> and \<^verbatim>\<open>placeFiles\<close>. Both work on the
  file system and on external processes, so the embedding threads an explicit
  \<open>world\<close> (the file system and a chronological trace of the effects performed)
  through every call, and returns the Go \<^verbatim>\<open>error\<close> as an \<open>error option\<close>
  (\<open>None\<close> is \<^verbatim>\<open>nil\<close>).

  Everything the two functions call that lives outside the file (the packages
  \<^verbatim>\<open>path\<close>, \<^verbatim>\<open>tooth\<close>, \<^verbatim>\<open>context\<close>, the sibling function \<^verbatim>\<open>runCommands\<close>, and
  the Go standard library) is either a field of the record \<open>env\<close>, so that every theorem
  holds for all behaviours of that collaborator, or a small model that is marked as such.
\<close>

subsection \<open>Data\<close>

text \<open>
  Modelled from the spec: the type \<^verbatim>\<open>path.Path\<close> is missing from the sources. The spec
  calls it a canonical, comparable path value that supports equality, joining and an
  emptiness test. It is the list of the path's items: \<^verbatim>\<open>Join\<close> is \<open>@\<close>, \<^verbatim>\<open>Equal\<close> is
  \<open>=\<close>, \<^verbatim>\<open>IsEmpty\<close> is \<open>= []\<close>, \<^verbatim>\<open>MakeEmpty()\<close> is \<open>[]\<close>. \<^verbatim>\<open>LocalString()\<close> is
  only ever passed to the operating system, whose operations below take the path value
  itself. \<^verbatim>\<open>filepath.Dir\<close> of a local string is \<open>butlast\<close> of the items.
\<close>

type_synonym path = "string list"

datatype node = Dir | File string

type_synonym filesystem = "path \<rightharpoonup> node"

text \<open>The effects the two functions perform, in the order they are performed.\<close>

datatype event =
    Ran string
  | MadeDirs path
  | Created path
  | Copied path string
  | WroteMetadata path string

record world =
  files :: filesystem
  trace :: "event list"

text \<open>One constructor for every \<^verbatim>\<open>return\<close> of an error (and the one panic) in the file.\<close>

datatype error =
    CheckInstalledFailed
  | AlreadyInstalled string
  | CommandFailed string
  | PreInstallFailed error
  | GetAssetURLFailed
  | AssetConfig
  | PostInstallFailed error
  | MarshalFailed
  | MetadataDirFailed
  | MustParsePanic
  | WriteMetadataFailed
  | GetwdFailed
  | ParseWorkspaceFailed
  | OpenArchiveFailed
  | ParseDestFailed
  | DestExists path
  | MkdirFailed
  | ParseSrcFailed
  | ParseFileFailed
  | OpenSourceFailed
  | CreateDestFailed
  | CopyFailed

text \<open>
  The descriptor (\<^verbatim>\<open>tooth.Metadata\<close>) as the getters used here expose it.
  \<^verbatim>\<open>AssetURL()\<close> returns a URL or an error: \<open>None\<close> is the error, \<open>Some u\<close> the URL's
  string. \<open>Place\<close> is \<^verbatim>\<open>Files().Place\<close>; \<open>PreInstall\<close> and \<open>PostInstall\<close> are the
  two fields of \<^verbatim>\<open>Commands()\<close>.
\<close>

record place =
  Src :: string
  Dest :: string

record metadata =
  ToothRepoPath :: string
  AssetURL :: "string option"
  PreInstall :: "string list"
  PostInstall :: "string list"
  Place :: "place list"

record archive =
  Metadata :: metadata
  FilePath :: path
  ContentFilePathRoot :: path

text \<open>
  An entry of an opened zip archive (\<^verbatim>\<open>zip.File\<close>): its name and what reading it
  gives. \<^verbatim>\<open>f.Open()\<close> fails on \<open>Unopenable\<close>; \<^verbatim>\<open>io.Copy\<close> writes the bytes of
  \<open>Truncated\<close> and then fails; it writes all of \<open>Bytes\<close> and succeeds.
\<close>

datatype stream = Unopenable | Truncated string | Bytes string

record zip_file =
  Name :: string
  payload :: stream

text \<open>
  The collaborators whose code is not in the file, as parameters:
  \<^item> \<open>IsInstalled\<close>: \<^verbatim>\<open>tooth.IsInstalled(ctx, repoPath)\<close>, reading the registry on the
    file system; \<open>None\<close> is its error;
  \<^item> \<open>exec\<close>: running one command line; it may change the file system, and returns
    whether the command succeeded;
  \<^item> \<open>Parse\<close>: \<^verbatim>\<open>path.Parse\<close>; \<open>None\<close> is its error;
  \<^item> \<open>Getwd\<close>: \<^verbatim>\<open>os.Getwd()\<close>;
  \<^item> \<open>OpenReader\<close>: \<^verbatim>\<open>zip.OpenReader\<close>, the entries of the archive at a path, in
    the archive's order;
  \<^item> \<open>MetadataDir\<close>: \<^verbatim>\<open>ctx.MetadataDir()\<close>;
  \<^item> \<open>QueryEscape\<close>: \<^verbatim>\<open>url.QueryEscape\<close>;
  \<^item> \<open>MarshalJSON\<close>: \<^verbatim>\<open>Metadata.MarshalJSON()\<close>.
\<close>

record env =
  IsInstalled :: "filesystem \<Rightarrow> string \<Rightarrow> bool option"
  exec :: "string \<Rightarrow> filesystem \<Rightarrow> bool \<times> filesystem"
  Parse :: "string \<Rightarrow> path option"
  Getwd :: "string option"
  OpenReader :: "filesystem \<Rightarrow> path \<Rightarrow> zip_file list option"
  MetadataDir :: "path option"
  QueryEscape :: "string \<Rightarrow> string"
  MarshalJSON :: "metadata \<Rightarrow> string option"

subsection \<open>The operating system\<close>

text \<open>
  The file system maps a path to a directory or to a file with its bytes; the root
  \<open>[]\<close> is always a directory. Failures that depend on permissions or on the disk are
  not modelled: an operation fails exactly when the shape of the file system forbids it.
\<close>

definition is_dir :: "filesystem \<Rightarrow> path \<Rightarrow> bool" where
  "is_dir fs p = (p = [] \<or> fs p = Some Dir)"

definition is_file :: "filesystem \<Rightarrow> path \<Rightarrow> bool" where
  "is_file fs p = (case fs p of Some (File b) \<Rightarrow> p \<noteq> [] | _ \<Rightarrow> False)"

text \<open>
  \<^verbatim>\<open>os.Stat(relDest.LocalString())\<close> with \<^verbatim>\<open>err == nil\<close>: an entry exists. The
  name is relative, and the operating system resolves it against the working
  directory, the directory that \<^verbatim>\<open>os.Getwd\<close> named and \<^verbatim>\<open>path.Parse\<close> turned into
  \<open>workspaceDir\<close>.
\<close>

definition os_Stat :: "path \<Rightarrow> path \<Rightarrow> world \<Rightarrow> bool" where
  "os_Stat workspaceDir p w = (workspaceDir @ p = [] \<or> files w (workspaceDir @ p) \<noteq> None)"

text \<open>
  \<^verbatim>\<open>os.MkdirAll\<close>: fails when the path or one of its ancestors is a file; otherwise
  the path and its ancestors are directories afterwards.
\<close>

definition os_MkdirAll :: "path \<Rightarrow> world \<Rightarrow> world option" where
  "os_MkdirAll p w =
     (if list_ex (is_file (files w)) (prefixes p) then None
      else Some \<lparr>files = fold (\<lambda>q fs. fs(q \<mapsto> Dir)) (prefixes p) (files w),
                 trace = trace w @ [MadeDirs p]\<rparr>)"

text \<open>
  \<^verbatim>\<open>os.Create\<close>: creates the file or truncates it; fails when the path is a
  directory or its parent is not one.
\<close>

definition os_Create :: "path \<Rightarrow> world \<Rightarrow> world option" where
  "os_Create p w =
     (if is_dir (files w) p \<or> \<not> is_dir (files w) (butlast p) then None
      else Some \<lparr>files = (files w)(p \<mapsto> File []), trace = trace w @ [Created p]\<rparr>)"

text \<open>\<^verbatim>\<open>io.Copy(fw, rc)\<close> into the file just created at \<open>p\<close>; the flag is success.\<close>

fun io_Copy :: "path \<Rightarrow> stream \<Rightarrow> world \<Rightarrow> bool \<times> world" where
  "io_Copy p (Bytes b) w =
     (True, \<lparr>files = (files w)(p \<mapsto> File b), trace = trace w @ [Copied p b]\<rparr>)"
| "io_Copy p (Truncated b) w =
     (False, \<lparr>files = (files w)(p \<mapsto> File b), trace = trace w @ [Copied p b]\<rparr>)"
| "io_Copy p Unopenable w = (False, w)"

text \<open>\<^verbatim>\<open>os.WriteFile\<close> of the metadata record: one write of the whole content.\<close>

definition os_WriteFile :: "path \<Rightarrow> string \<Rightarrow> world \<Rightarrow> world option" where
  "os_WriteFile p b w =
     (if is_dir (files w) p \<or> \<not> is_dir (files w) (butlast p) then None
      else Some \<lparr>files = (files w)(p \<mapsto> File b), trace = trace w @ [WroteMetadata p b]\<rparr>)"

text \<open>\<^verbatim>\<open>strings.HasSuffix\<close>.\<close>

definition HasSuffix :: "string \<Rightarrow> string \<Rightarrow> bool" where
  "HasSuffix s suf = (length suf \<le> length s \<and> drop (length s - length suf) s = suf)"

subsection \<open>Running commands\<close>

text \<open>
  Modelled from the spec: \<^verbatim>\<open>runCommands\<close> is a function of the package that is missing
  from the sources. The spec (Command Runner): the commands run strictly in order; a
  command that fails stops the sequence and is the failure; the commands after it never
  run; an empty sequence succeeds.
\<close>

fun runCommands :: "env \<Rightarrow> string list \<Rightarrow> world \<Rightarrow> error option \<times> world" where
  "runCommands env [] w = (None, w)"
| "runCommands env (c # cs) w =
     (case exec env c (files w) of
        (ok, fs) \<Rightarrow>
          (if ok then runCommands env cs \<lparr>files = fs, trace = trace w @ [Ran c]\<rparr>
           else (Some (CommandFailed c), \<lparr>files = fs, trace = trace w @ [Ran c]\<rparr>)))"

subsection \<open>\<^verbatim>\<open>placeFiles\<close>\<close>

text \<open>The inner loop (lines 150 to 186): the scan of the archive's entries for one rule.\<close>

fun placeFiles_entries :: "env \<Rightarrow> path \<Rightarrow> path \<Rightarrow> zip_file list \<Rightarrow> world \<Rightarrow> error option \<times> world" where
  "placeFiles_entries env src dest [] w = (None, w)"
| "placeFiles_entries env src dest (f # fs) w =
     (if HasSuffix (Name f) ''/'' then placeFiles_entries env src dest fs w
      else
        (case Parse env (Name f) of
           None \<Rightarrow> (Some ParseFileFailed, w)
         | Some filePath \<Rightarrow>
             (if filePath = src then
                (if payload f = Unopenable then (Some OpenSourceFailed, w)
                 else
                   (case os_Create dest w of
                      None \<Rightarrow> (Some CreateDestFailed, w)
                    | Some w1 \<Rightarrow>
                        (case io_Copy dest (payload f) w1 of
                           (ok, w2) \<Rightarrow>
                             (if ok then placeFiles_entries env src dest fs w2
                              else (Some CopyFailed, w2)))))
              else placeFiles_entries env src dest fs w)))"

text \<open>The body of the outer loop (lines 123 to 186): one placement rule.\<close>

definition placeFiles_rule :: "env \<Rightarrow> path \<Rightarrow> path \<Rightarrow> zip_file list \<Rightarrow> place \<Rightarrow> world \<Rightarrow> error option \<times> world" where
  "placeFiles_rule env workspaceDir assetContentFilePathRoot r pl w =
     (case Parse env (Dest pl) of
        None \<Rightarrow> (Some ParseDestFailed, w)
      | Some relDest \<Rightarrow>
          (if os_Stat workspaceDir relDest w then (Some (DestExists relDest), w)
           else
             (case os_MkdirAll (butlast (workspaceDir @ relDest)) w of
                None \<Rightarrow> (Some MkdirFailed, w)
              | Some w1 \<Rightarrow>
                  (case Parse env (Src pl) of
                     None \<Rightarrow> (Some ParseSrcFailed, w1)
                   | Some relSrc \<Rightarrow>
                       placeFiles_entries env (assetContentFilePathRoot @ relSrc)
                         (workspaceDir @ relDest) r w1))))"

text \<open>The outer loop (line 122): the rules in order, stopping at the first error.\<close>

fun placeFiles_rules :: "env \<Rightarrow> path \<Rightarrow> path \<Rightarrow> zip_file list \<Rightarrow> place list \<Rightarrow> world \<Rightarrow> error option \<times> world" where
  "placeFiles_rules env workspaceDir root r [] w = (None, w)"
| "placeFiles_rules env workspaceDir root r (pl # pls) w =
     (case placeFiles_rule env workspaceDir root r pl w of
        (Some e, w1) \<Rightarrow> (Some e, w1)
      | (None, w1) \<Rightarrow> placeFiles_rules env workspaceDir root r pls w1)"

definition placeFiles :: "env \<Rightarrow> metadata \<Rightarrow> path \<Rightarrow> path \<Rightarrow> world \<Rightarrow> error option \<times> world" where
  "placeFiles env md assetArchiveFilePath assetContentFilePathRoot w =
     (case Getwd env of
        None \<Rightarrow> (Some GetwdFailed, w)
      | Some workspaceDirStr \<Rightarrow>
          (case Parse env workspaceDirStr of
             None \<Rightarrow> (Some ParseWorkspaceFailed, w)
           | Some workspaceDir \<Rightarrow>
               (case OpenReader env (files w) assetArchiveFilePath of
                  None \<Rightarrow> (Some OpenArchiveFailed, w)
                | Some r \<Rightarrow>
                    placeFiles_rules env workspaceDir assetContentFilePathRoot r (Place md) w)))"

subsection \<open>\<^verbatim>\<open>Install\<close>\<close>

text \<open>
  Step 3 calls \<^verbatim>\<open>placeFiles\<close> as a statement (lines 57 and 62): the error it returns
  is dropped, and only its effects on the world remain. \<open>placed\<close> is that world.
\<close>

definition placed :: "env \<Rightarrow> archive \<Rightarrow> path \<Rightarrow> world \<Rightarrow> world" where
  "placed env a assetArchiveFilePath w =
     (if assetArchiveFilePath = []
      then snd (placeFiles env (Metadata a) (FilePath a) (ContentFilePathRoot a) w)
      else snd (placeFiles env (Metadata a) assetArchiveFilePath [] w))"

text \<open>Step 5 (lines 76 to 95): the metadata record.\<close>

definition writeMetadata :: "env \<Rightarrow> archive \<Rightarrow> world \<Rightarrow> error option \<times> world" where
  "writeMetadata env a w =
     (case MarshalJSON env (Metadata a) of
        None \<Rightarrow> (Some MarshalFailed, w)
      | Some jsonBytes \<Rightarrow>
          (case MetadataDir env of
             None \<Rightarrow> (Some MetadataDirFailed, w)
           | Some metadataDir \<Rightarrow>
               (case Parse env (QueryEscape env (ToothRepoPath (Metadata a)) @ ''.json'') of
                  None \<Rightarrow> (Some MustParsePanic, w)
                | Some metadataFileName \<Rightarrow>
                    (case os_WriteFile (metadataDir @ metadataFileName) jsonBytes w of
                       None \<Rightarrow> (Some WriteMetadataFailed, w)
                     | Some w1 \<Rightarrow> (None, w1)))))"

definition Install :: "env \<Rightarrow> archive \<Rightarrow> path \<Rightarrow> world \<Rightarrow> error option \<times> world" where
  "Install env a assetArchiveFilePath w =
     (case IsInstalled env (files w) (ToothRepoPath (Metadata a)) of
        None \<Rightarrow> (Some CheckInstalledFailed, w)
      | Some installed \<Rightarrow>
          (if installed then (Some (AlreadyInstalled (ToothRepoPath (Metadata a))), w)
           else
             (case runCommands env (PreInstall (Metadata a)) w of
                (Some e, w1) \<Rightarrow> (Some (PreInstallFailed e), w1)
              | (None, w1) \<Rightarrow>
                  (case AssetURL (Metadata a) of
                     None \<Rightarrow> (Some GetAssetURLFailed, w1)
                   | Some assetURL \<Rightarrow>
                       (if (assetArchiveFilePath = [] \<and> assetURL \<noteq> '''') \<or>
                           (assetArchiveFilePath \<noteq> [] \<and> assetURL = '''')
                        then (Some AssetConfig, w1)
                        else
                          (case runCommands env (PostInstall (Metadata a))
                                  (placed env a assetArchiveFilePath w1) of
                             (Some e, w3) \<Rightarrow> (Some (PostInstallFailed e), w3)
                           | (None, w3) \<Rightarrow> writeMetadata env a w3))))))"

subsection \<open>A concrete environment\<close>

text \<open>
  One behaviour of the collaborators, to run the functions on concrete inputs. Paths are
  split at \<open>/\<close> and the empty string does not parse; the registry holds one record file
  per installed tooth under \<open>/ws/.lip\<close>; the command \<open>false\<close> fails and every other
  command succeeds without touching the file system; the only archive is
  \<open>tooth.zip\<close>, with the entries given.
\<close>

fun items :: "string \<Rightarrow> string \<Rightarrow> path" where
  "items cur [] = (if cur = [] then [] else [cur])"
| "items cur (c # cs) =
     (if c = CHR ''/'' then (if cur = [] then items [] cs else cur # items [] cs)
      else items (cur @ [c]) cs)"

definition sample_Parse :: "string \<Rightarrow> path option" where
  "sample_Parse s = (if s = [] then None else Some (items [] s))"

definition sample_QueryEscape :: "string \<Rightarrow> string" where
  "sample_QueryEscape s = concat (map (\<lambda>c. if c = CHR ''/'' then ''%2F'' else [c]) s)"

definition sample_env :: "zip_file list \<Rightarrow> env" where
  "sample_env zs =
     \<lparr>IsInstalled = (\<lambda>fs t. Some (fs [''ws'', ''.lip'', sample_QueryEscape t @ ''.json''] \<noteq> None)),
      exec = (\<lambda>c fs. (c \<noteq> ''false'', fs)),
      Parse = sample_Parse,
      Getwd = Some ''/ws'',
      OpenReader = (\<lambda>fs p. if p = [''tooth.zip''] then Some zs else None),
      MetadataDir = Some [''ws'', ''.lip''],
      QueryEscape = sample_QueryEscape,
      MarshalJSON = (\<lambda>md. Some (''{tooth:'' @ ToothRepoPath md @ ''}''))\<rparr>"

definition sample_world :: world where
  "sample_world = \<lparr>files = [[''ws''] \<mapsto> Dir, [''ws'', ''.lip''] \<mapsto> Dir], trace = []\<rparr>"

text \<open>The descriptor of the spec's scenario, with the asset URL and the commands given.\<close>

definition sample_tooth :: "string \<Rightarrow> string list \<Rightarrow> string list \<Rightarrow> place list \<Rightarrow> archive" where
  "sample_tooth url pre post rules =
     \<lparr>Metadata = \<lparr>ToothRepoPath = ''a.b/c'', AssetURL = Some url, PreInstall = pre,
                   PostInstall = post, Place = rules\<rparr>,
      FilePath = [''tooth.zip''], ContentFilePathRoot = []\<rparr>"

definition tool_rule :: place where
  "tool_rule = \<lparr>Src = ''bin/tool'', Dest = ''tool''\<rparr>"

definition tool_zip :: "zip_file list" where
  "tool_zip = [\<lparr>Name = ''bin/tool'', payload = Bytes ''X''\<rparr>]"

text \<open>Where the record of the tooth \<open>a.b/c\<close> goes, and worlds that already hold something.\<close>

definition record_path :: path where
  "record_path = [''ws'', ''.lip'', ''a.b%2Fc.json'']"

definition occupied_world :: world where
  "occupied_world =
     \<lparr>files = [[''ws''] \<mapsto> Dir, [''ws'', ''.lip''] \<mapsto> Dir, [''ws'', ''tool''] \<mapsto> File ''mine''],
      trace = []\<rparr>"

definition installed_world :: world where
  "installed_world =
     \<lparr>files = [[''ws''] \<mapsto> Dir, [''ws'', ''.lip''] \<mapsto> Dir, record_path \<mapsto> File ''{tooth:a.b/c}''],
      trace = []\<rparr>"

text \<open>
  The archive of the spec's exact-match example, with the entry \<open>a/b.txt\<close> twice, and
  its rule; a rule that matches nothing; two rules with one destination.
\<close>

definition twice_zip :: "zip_file list" where
  "twice_zip =
     [\<lparr>Name = ''a/'', payload = Bytes []\<rparr>,
      \<lparr>Name = ''a/b.txt'', payload = Bytes ''first''\<rparr>,
      \<lparr>Name = ''a/bb.txt'', payload = Bytes ''other''\<rparr>,
      \<lparr>Name = ''a/b.txt'', payload = Bytes ''second''\<rparr>]"

definition out_rule :: place where
  "out_rule = \<lparr>Src = ''b.txt'', Dest = ''out.txt''\<rparr>"

definition nomatch_rule :: place where
  "nomatch_rule = \<lparr>Src = ''bin/none'', Dest = ''opt/bin/tool''\<rparr>"

definition again_rule :: place where
  "again_rule = \<lparr>Src = ''bin/other'', Dest = ''tool''\<rparr>"

subsection \<open>Vocabulary of the statements\<close>

text \<open>
  The entries a rule selects: the entries of the archive, in its order, that are not
  directories and whose parsed name is the expected source path. \<open>copies\<close> is the trace
  of copying them in turn, \<open>content\<close> the bytes \<^verbatim>\<open>io.Copy\<close> writes for a stream.
\<close>

definition content :: "stream \<Rightarrow> string" where
  "content s = (case s of Bytes b \<Rightarrow> b | Truncated b \<Rightarrow> b | Unopenable \<Rightarrow> [])"

definition matches :: "env \<Rightarrow> path \<Rightarrow> zip_file list \<Rightarrow> zip_file list" where
  "matches env src r = filter (\<lambda>f. \<not> HasSuffix (Name f) ''/'' \<and> Parse env (Name f) = Some src) r"

definition copies :: "path \<Rightarrow> zip_file list \<Rightarrow> event list" where
  "copies dest ms = concat (map (\<lambda>f. [Created dest, Copied dest (content (payload f))]) ms)"

section \<open>Properties\<close>

lemmas model_defs =
  Install_def placed_def writeMetadata_def placeFiles_def placeFiles_rule_def
  os_Stat_def os_MkdirAll_def os_Create_def os_WriteFile_def is_dir_def is_file_def HasSuffix_def

lemmas sample_defs =
  sample_env_def sample_world_def sample_tooth_def tool_rule_def sample_Parse_def sample_QueryEscape_def

subsection \<open>Effects of the commands and of the operating system\<close>

lemma runCommands_trace:
  "runCommands env cs w = (None, w') \<Longrightarrow> trace w' = trace w @ map Ran cs"
proof (induction cs arbitrary: w)
  case Nil
  then show ?case by simp
next
  case (Cons c cs)
  obtain ok fs where ex: "exec env c (files w) = (ok, fs)" by (cases "exec env c (files w)")
  with Cons.prems have ok: ok
    by (auto split: if_splits)
  with ex Cons.prems have "runCommands env cs \<lparr>files = fs, trace = trace w @ [Ran c]\<rparr> = (None, w')"
    by simp
  from Cons.IH [OF this] show ?case by simp
qed

lemma fold_mkdir_in: "q \<in> set qs \<Longrightarrow> fold (\<lambda>q fs. fs(q \<mapsto> Dir)) qs fs q = Some Dir"
  by (induction qs arbitrary: fs rule: rev_induct) auto

lemma fold_mkdir_out: "q \<notin> set qs \<Longrightarrow> fold (\<lambda>q fs. fs(q \<mapsto> Dir)) qs fs q = fs q"
  by (induction qs arbitrary: fs) auto

lemma os_MkdirAll_files:
  assumes "os_MkdirAll p w = Some w1"
  shows "files w1 q = (if prefix q p then Some Dir else files w q)"
    and "trace w1 = trace w @ [MadeDirs p]"
  using assms
  by (auto simp: os_MkdirAll_def fold_mkdir_in fold_mkdir_out in_set_prefixes split: if_splits)

lemma entries_effect:
  "placeFiles_entries env src dest r w = (None, w') \<Longrightarrow>
     trace w' = trace w @ copies dest (matches env src r) \<and>
     files w' = (if matches env src r = [] then files w
                 else (files w)(dest \<mapsto> File (content (payload (last (matches env src r))))))"
proof (induction r arbitrary: w)
  case Nil
  then show ?case by (simp add: matches_def copies_def)
next
  case (Cons f fs)
  show ?case
  proof (cases "\<not> HasSuffix (Name f) ''/'' \<and> Parse env (Name f) = Some src")
    case False
    with Cons.prems have "placeFiles_entries env src dest fs w = (None, w')"
      by (auto split: option.splits if_splits)
    moreover have "matches env src (f # fs) = matches env src fs"
      using False by (auto simp: matches_def)
    ultimately show ?thesis
      using Cons.IH by simp
  next
    case True
    with Cons.prems obtain w1 w2 where
      op: "payload f \<noteq> Unopenable" and cr: "os_Create dest w = Some w1"
      and cp: "io_Copy dest (payload f) w1 = (True, w2)"
      and rest: "placeFiles_entries env src dest fs w2 = (None, w')"
      by (auto split: option.splits if_splits prod.splits)
    from op cp obtain b where b: "payload f = Bytes b"
      by (cases "payload f") auto
    from cr have w1: "files w1 = (files w)(dest \<mapsto> File [])" "trace w1 = trace w @ [Created dest]"
      by (auto simp: os_Create_def split: if_splits)
    from cp b w1 have w2: "files w2 = (files w)(dest \<mapsto> File b)"
      "trace w2 = trace w @ [Created dest, Copied dest b]"
      by auto
    have m: "matches env src (f # fs) = f # matches env src fs"
      using True by (simp add: matches_def)
    from Cons.IH [OF rest] w2 b show ?thesis
      by (auto simp: m copies_def content_def fun_eq_iff)
  qed
qed


lemma rule_success:
  assumes "placeFiles_rule env wd root r pl w = (None, w')"
  obtains relDest relSrc w1 where
    "Parse env (Dest pl) = Some relDest" "\<not> os_Stat wd relDest w"
    "os_MkdirAll (butlast (wd @ relDest)) w = Some w1"
    "Parse env (Src pl) = Some relSrc"
    "placeFiles_entries env (root @ relSrc) (wd @ relDest) r w1 = (None, w')"
  using assms
  by (auto simp: placeFiles_rule_def split: option.splits if_splits)

lemma not_prefix_butlast: "d \<noteq> [] \<Longrightarrow> \<not> prefix d (butlast d)"
  by (cases d rule: rev_cases) (auto dest: prefix_length_le)

lemma rule_effect:
  assumes "placeFiles_rule env wd root r pl w = (None, w')"
  shows "\<exists>relDest relSrc.
           Parse env (Dest pl) = Some relDest \<and> Parse env (Src pl) = Some relSrc \<and>
           wd @ relDest \<noteq> [] \<and> files w (wd @ relDest) = None \<and>
           trace w' = trace w @ MadeDirs (butlast (wd @ relDest)) #
                        copies (wd @ relDest) (matches env (root @ relSrc) r) \<and>
           (\<forall>q. files w' q =
                  (if q = wd @ relDest \<and> matches env (root @ relSrc) r \<noteq> []
                   then Some (File (content (payload (last (matches env (root @ relSrc) r)))))
                   else if prefix q (butlast (wd @ relDest)) then Some Dir
                   else files w q))"
proof -
  from assms obtain relDest relSrc w1 where
    d: "Parse env (Dest pl) = Some relDest" and st: "\<not> os_Stat wd relDest w"
    and mk: "os_MkdirAll (butlast (wd @ relDest)) w = Some w1"
    and s: "Parse env (Src pl) = Some relSrc"
    and en: "placeFiles_entries env (root @ relSrc) (wd @ relDest) r w1 = (None, w')"
    by (rule rule_success)
  from st have ne: "wd @ relDest \<noteq> []" and free: "files w (wd @ relDest) = None"
    by (auto simp: os_Stat_def)
  note m = os_MkdirAll_files [OF mk]
  note e = entries_effect [OF en]
  have np: "\<not> prefix (wd @ relDest) (butlast (wd @ relDest))"
    using ne by (rule not_prefix_butlast)
  have "trace w' = trace w @ MadeDirs (butlast (wd @ relDest)) #
          copies (wd @ relDest) (matches env (root @ relSrc) r)"
    using e m(2) by simp
  moreover have "files w' q =
      (if q = wd @ relDest \<and> matches env (root @ relSrc) r \<noteq> []
       then Some (File (content (payload (last (matches env (root @ relSrc) r)))))
       else if prefix q (butlast (wd @ relDest)) then Some Dir
       else files w q)" for q
    using e m(1) np by auto
  ultimately show ?thesis
    using d s ne free by blast
qed

lemma rule_keeps_entries:
  assumes "placeFiles_rule env wd root r pl w = (None, w')" and "files w q \<noteq> None"
  shows "files w' q \<noteq> None"
proof -
  from assms(1) obtain relDest relSrc w1 where
    mk: "os_MkdirAll (butlast (wd @ relDest)) w = Some w1"
    and en: "placeFiles_entries env (root @ relSrc) (wd @ relDest) r w1 = (None, w')"
    by (rule rule_success)
  from os_MkdirAll_files(1) [OF mk, of q] assms(2) have "files w1 q \<noteq> None"
    by (auto split: if_splits)
  with entries_effect [OF en] show ?thesis
    by (auto split: if_splits)
qed

lemma rules_keep_entries:
  "placeFiles_rules env wd root r pls w = (None, w') \<Longrightarrow> files w q \<noteq> None \<Longrightarrow> files w' q \<noteq> None"
proof (induction pls arbitrary: w)
  case Nil
  then show ?case by simp
next
  case (Cons pl pls)
  from Cons.prems(1) obtain w1 where
    one: "placeFiles_rule env wd root r pl w = (None, w1)"
    and rest: "placeFiles_rules env wd root r pls w1 = (None, w')"
    by (auto split: prod.splits option.splits)
  from rule_keeps_entries [OF one Cons.prems(2)] show ?case
    by (rule Cons.IH [OF rest])
qed

lemma rules_place:
  "placeFiles_rules env wd root r pls w = (None, w') \<Longrightarrow> pl \<in> set pls \<Longrightarrow>
     Parse env (Dest pl) = Some relDest \<Longrightarrow> Parse env (Src pl) = Some relSrc \<Longrightarrow>
     matches env (root @ relSrc) r \<noteq> [] \<Longrightarrow> files w' (wd @ relDest) \<noteq> None"
proof (induction pls arbitrary: w)
  case Nil
  then show ?case by simp
next
  case (Cons p pls)
  from Cons.prems(1) obtain w1 where
    one: "placeFiles_rule env wd root r p w = (None, w1)"
    and rest: "placeFiles_rules env wd root r pls w1 = (None, w')"
    by (auto split: prod.splits option.splits)
  show ?case
  proof (cases "pl = p")
    case True
    with rule_effect [OF one] Cons.prems(3,4,5) have "files w1 (wd @ relDest) \<noteq> None"
      by auto
    with rest show ?thesis by (rule rules_keep_entries)
  next
    case False
    with Cons.prems(2) have "pl \<in> set pls" by simp
    from Cons.IH [OF rest this Cons.prems(3,4,5)] show ?thesis .
  qed
qed

lemma rules_append:
  "placeFiles_rules env wd root r pre w = (None, w1) \<Longrightarrow>
     placeFiles_rules env wd root r (pre @ rest) w = placeFiles_rules env wd root r rest w1"
  by (induction pre arbitrary: w) (auto split: prod.splits option.splits)

lemma rules_success_each:
  "placeFiles_rules env wd root r pls w = (None, w') \<Longrightarrow> pl \<in> set pls \<Longrightarrow>
     \<exists>v v'. placeFiles_rule env wd root r pl v = (None, v')"
proof (induction pls arbitrary: w)
  case Nil
  then show ?case by simp
next
  case (Cons p pls)
  from Cons.prems(1) obtain w1 where
    one: "placeFiles_rule env wd root r p w = (None, w1)"
    and rest: "placeFiles_rules env wd root r pls w1 = (None, w')"
    by (auto split: prod.splits option.splits)
  show ?case
  proof (cases "pl = p")
    case True
    with one show ?thesis by blast
  next
    case False
    with Cons.prems(2) have "pl \<in> set pls" by simp
    from Cons.IH [OF rest this] show ?thesis .
  qed
qed

subsection \<open>\<^verbatim>\<open>Install\<close>: the duplicate check\<close>

text \<open>
  C6. When \<^verbatim>\<open>tooth.IsInstalled\<close> reports that the identity is recorded as installed,
  \<^verbatim>\<open>Install\<close> fails with the "already installed" error and returns the world it was
  given: the trace and the file system are unchanged, so no lifecycle command has run and
  no file has been written. The duplicate check is the first step.
\<close>

theorem Install_rejects_installed_tooth:
  assumes "IsInstalled env (files w) (ToothRepoPath (Metadata a)) = Some True"
  shows "Install env a p w = (Some (AlreadyInstalled (ToothRepoPath (Metadata a))), w)"
  using assms by (simp add: Install_def)

text \<open>
  The spec's scenario twice: the first install succeeds and writes the record, and the
  second, started in the world the first one left, is rejected and leaves it as it is.
\<close>

theorem Install_rejects_installed_tooth_witness:
  "fst (Install (sample_env tool_zip) (sample_tooth '''' [''echo pre''] [''echo post''] [tool_rule]) []
          sample_world) = None \<and>
   Install (sample_env tool_zip) (sample_tooth '''' [''echo pre''] [''echo post''] [tool_rule]) []
     (snd (Install (sample_env tool_zip) (sample_tooth '''' [''echo pre''] [''echo post''] [tool_rule]) []
          sample_world)) =
     (Some (AlreadyInstalled ''a.b/c''),
      snd (Install (sample_env tool_zip) (sample_tooth '''' [''echo pre''] [''echo post''] [tool_rule]) []
          sample_world))"
proof -
  let ?e = "sample_env tool_zip"
  let ?a = "sample_tooth '''' [''echo pre''] [''echo post''] [tool_rule]"
  let ?w = "snd (Install ?e ?a [] sample_world)"
  have ok: "fst (Install ?e ?a [] sample_world) = None"
    by (simp add: model_defs sample_defs tool_zip_def)
  have h: "IsInstalled ?e (files ?w) (ToothRepoPath (Metadata ?a)) = Some True"
    by (simp add: model_defs sample_defs tool_zip_def)
  have n: "ToothRepoPath (Metadata ?a) = ''a.b/c''"
    by (simp add: sample_tooth_def)
  from Install_rejects_installed_tooth [OF h, of "[]"] ok n show ?thesis
    by simp
qed

subsection \<open>\<^verbatim>\<open>Install\<close>: the asset-location check\<close>

text \<open>
  The condition of lines 49 to 52 is true when exactly one of the supplied archive path
  and the asset URL is empty; its message reads "must be both specified or both empty".
  The check stands in step 3, behind the duplicate check, the pre-install commands and
  \<^verbatim>\<open>AssetURL()\<close>.
\<close>

lemma writeMetadata_error:
  "fst (writeMetadata env a w) \<in>
     {None, Some MarshalFailed, Some MetadataDirFailed, Some MustParsePanic, Some WriteMetadataFailed}"
  by (simp add: writeMetadata_def split: option.splits)

lemma writeMetadata_not_AssetConfig: "writeMetadata env a w \<noteq> (Some AssetConfig, w')"
  using writeMetadata_error [of env a w] by auto

text \<open>
  C2, as amended. \<^verbatim>\<open>Install\<close> fails with the configuration error exactly when the
  duplicate check reports "not installed", every pre-install command succeeds, the asset
  URL is obtained, and exactly one of the supplied asset-archive path and the asset URL
  is empty. So a call with both set, or both empty, never raises the configuration error.
\<close>

theorem Install_AssetConfig_iff:
  "fst (Install env a p w) = Some AssetConfig \<longleftrightarrow>
     IsInstalled env (files w) (ToothRepoPath (Metadata a)) = Some False \<and>
     fst (runCommands env (PreInstall (Metadata a)) w) = None \<and>
     (\<exists>u. AssetURL (Metadata a) = Some u \<and> ((p = [] \<and> u \<noteq> '''') \<or> (p \<noteq> [] \<and> u = '''')))"
proof -
  have "fst (writeMetadata env a w3) \<noteq> Some AssetConfig" for w3
    using writeMetadata_error [of env a w3] by auto
  then show ?thesis
    by (auto simp: Install_def split: option.splits prod.splits if_splits)
qed

theorem Install_AssetConfig_iff_witness:
  "fst (Install (sample_env tool_zip) (sample_tooth '''' [''echo pre''] [] [tool_rule])
          [''asset.zip''] sample_world) = Some AssetConfig"
  by (simp add: Install_AssetConfig_iff sample_env_def sample_tooth_def sample_world_def)

text \<open>
  C2 as stated fails: with both empty, and with both set, \<^verbatim>\<open>Install\<close> succeeds; with
  exactly one empty it fails with the configuration error.
\<close>

theorem Install_pairing_counterexample:
  "fst (Install (sample_env tool_zip) (sample_tooth '''' [] [] [tool_rule]) [] sample_world) = None \<and>
   fst (Install (sample_env tool_zip) (sample_tooth ''https://a.b/c.zip'' [] [] [tool_rule])
          [''asset.zip''] sample_world) = None \<and>
   fst (Install (sample_env tool_zip) (sample_tooth ''https://a.b/c.zip'' [] [] [tool_rule])
          [] sample_world) = Some AssetConfig \<and>
   fst (Install (sample_env tool_zip) (sample_tooth '''' [] [] [tool_rule])
          [''asset.zip''] sample_world) = Some AssetConfig"
  by (simp add: model_defs sample_defs tool_zip_def)

text \<open>
  C3, as amended. When \<^verbatim>\<open>Install\<close> fails with the configuration error, the world it
  returns is the world the pre-install commands left: all of them have run, in order and
  successfully, and nothing else has happened (no file placed, no post-install command
  run, no record written).
\<close>

theorem Install_AssetConfig_effects:
  assumes "Install env a p w = (Some AssetConfig, w')"
  shows "runCommands env (PreInstall (Metadata a)) w = (None, w') \<and>
         trace w' = trace w @ map Ran (PreInstall (Metadata a))"
proof -
  from assms have "runCommands env (PreInstall (Metadata a)) w = (None, w')"
    by (auto simp: Install_def writeMetadata_not_AssetConfig split: option.splits prod.splits if_splits)
  then show ?thesis
    by (simp add: runCommands_trace)
qed

theorem Install_AssetConfig_effects_witness:
  "Install (sample_env tool_zip) (sample_tooth '''' [''echo one'', ''echo two''] [] [tool_rule])
     [''asset.zip''] sample_world =
     (Some AssetConfig, \<lparr>files = files sample_world, trace = [Ran ''echo one'', Ran ''echo two'']\<rparr>) \<and>
   runCommands (sample_env tool_zip) [''echo one'', ''echo two''] sample_world =
     (None, \<lparr>files = files sample_world, trace = [Ran ''echo one'', Ran ''echo two'']\<rparr>)"
proof -
  have h: "Install (sample_env tool_zip) (sample_tooth '''' [''echo one'', ''echo two''] [] [tool_rule])
     [''asset.zip''] sample_world =
     (Some AssetConfig, \<lparr>files = files sample_world, trace = [Ran ''echo one'', Ran ''echo two'']\<rparr>)"
    by (simp add: model_defs sample_defs tool_zip_def)
  from Install_AssetConfig_effects [OF h] h show ?thesis
    by (simp add: sample_tooth_def)
qed

text \<open>
  C3 as stated fails: the pre-install command has been executed when the configuration
  error is returned.
\<close>

theorem Install_AssetConfig_counterexample:
  "Install (sample_env tool_zip) (sample_tooth ''https://a.b/c.zip'' [''echo hi''] [] [tool_rule])
     [] sample_world = (Some AssetConfig, \<lparr>files = files sample_world, trace = [Ran ''echo hi'']\<rparr>)"
  by (simp add: model_defs sample_defs tool_zip_def)

text \<open>
  C4, as amended. For a descriptor whose asset URL is not empty and an empty supplied
  archive path, and for a descriptor whose asset URL is empty and a supplied archive path
  that is not, \<^verbatim>\<open>Install\<close> fails; the failure is the configuration error whenever the
  duplicate check reports "not installed" and the pre-install commands succeed.
  Otherwise the error of the earlier step is returned: the failure of the duplicate check
  itself, "already installed" (both with the world untouched), or the error of the
  pre-install command that failed, in the world the commands left.
\<close>

theorem Install_mismatched_pairing_fails:
  assumes "AssetURL (Metadata a) = Some u"
    and "(p = [] \<and> u \<noteq> '''') \<or> (p \<noteq> [] \<and> u = '''')"
  shows "fst (Install env a p w) \<noteq> None \<and>
         (IsInstalled env (files w) (ToothRepoPath (Metadata a)) = Some False \<and>
          fst (runCommands env (PreInstall (Metadata a)) w) = None \<longrightarrow>
          fst (Install env a p w) = Some AssetConfig) \<and>
         (IsInstalled env (files w) (ToothRepoPath (Metadata a)) = None \<longrightarrow>
          Install env a p w = (Some CheckInstalledFailed, w)) \<and>
         (IsInstalled env (files w) (ToothRepoPath (Metadata a)) = Some True \<longrightarrow>
          Install env a p w = (Some (AlreadyInstalled (ToothRepoPath (Metadata a))), w)) \<and>
         (\<forall>e w1. IsInstalled env (files w) (ToothRepoPath (Metadata a)) = Some False \<and>
                 runCommands env (PreInstall (Metadata a)) w = (Some e, w1) \<longrightarrow>
                 Install env a p w = (Some (PreInstallFailed e), w1)) \<and>
         (\<forall>w1. IsInstalled env (files w) (ToothRepoPath (Metadata a)) = Some False \<and>
               runCommands env (PreInstall (Metadata a)) w = (None, w1) \<longrightarrow>
               Install env a p w = (Some AssetConfig, w1))"
  using assms
  by (auto simp: Install_def split: option.splits prod.splits if_splits)

text \<open>
  At a mismatched call of a tooth that is not installed, the configuration error; with
  the pre-install command \<open>false\<close>, the error of that command.
\<close>

theorem Install_mismatched_pairing_fails_witness:
  "AssetURL (Metadata (sample_tooth ''https://a.b/c.zip'' [] [] [tool_rule])) = Some ''https://a.b/c.zip'' \<and>
   fst (Install (sample_env tool_zip) (sample_tooth ''https://a.b/c.zip'' [] [] [tool_rule]) []
          sample_world) = Some AssetConfig \<and>
   Install (sample_env tool_zip) (sample_tooth ''https://a.b/c.zip'' [''false''] [] [tool_rule]) []
     sample_world =
     (Some (PreInstallFailed (CommandFailed ''false'')),
      \<lparr>files = files sample_world, trace = [Ran ''false'']\<rparr>)"
proof -
  let ?a = "sample_tooth ''https://a.b/c.zip'' [] [] [tool_rule]"
  let ?b = "sample_tooth ''https://a.b/c.zip'' [''false''] [] [tool_rule]"
  have m: "([] = ([]::path) \<and> ''https://a.b/c.zip'' \<noteq> '''') \<or>
           ([] \<noteq> ([]::path) \<and> ''https://a.b/c.zip'' = '''')"
    by simp
  have u: "AssetURL (Metadata ?a) = Some ''https://a.b/c.zip''"
    by (simp add: sample_tooth_def)
  have i: "IsInstalled (sample_env tool_zip) (files sample_world) (ToothRepoPath (Metadata ?a)) = Some False"
    by (simp add: model_defs sample_defs tool_zip_def)
  have c: "fst (runCommands (sample_env tool_zip) (PreInstall (Metadata ?a)) sample_world) = None"
    by (simp add: sample_tooth_def)
  from Install_mismatched_pairing_fails [OF u m, of "sample_env tool_zip" sample_world] i c
  have first: "fst (Install (sample_env tool_zip) ?a [] sample_world) = Some AssetConfig"
    by blast
  have u': "AssetURL (Metadata ?b) = Some ''https://a.b/c.zip''"
    by (simp add: sample_tooth_def)
  have i': "IsInstalled (sample_env tool_zip) (files sample_world) (ToothRepoPath (Metadata ?b)) = Some False"
    by (simp add: model_defs sample_defs tool_zip_def)
  have c': "runCommands (sample_env tool_zip) (PreInstall (Metadata ?b)) sample_world =
     (Some (CommandFailed ''false''), \<lparr>files = files sample_world, trace = [Ran ''false'']\<rparr>)"
    by (simp add: sample_defs)
  from Install_mismatched_pairing_fails [OF u' m, of "sample_env tool_zip" sample_world] i' c'
  have second: "Install (sample_env tool_zip) ?b [] sample_world =
     (Some (PreInstallFailed (CommandFailed ''false'')),
      \<lparr>files = files sample_world, trace = [Ran ''false'']\<rparr>)"
    by blast
  from u first second show ?thesis by simp
qed

text \<open>
  C4 as stated fails: for a tooth that is already installed the failure is the
  "already installed" error, not the configuration error.
\<close>

theorem Install_mismatched_pairing_counterexample:
  "Install (sample_env tool_zip) (sample_tooth ''https://a.b/c.zip'' [] [] [tool_rule]) []
     installed_world = (Some (AlreadyInstalled ''a.b/c''), installed_world) \<and>
   fst (Install (sample_env tool_zip) (sample_tooth ''https://a.b/c.zip'' [] [] [tool_rule]) []
     installed_world) \<noteq> Some AssetConfig"
  by (simp add: model_defs sample_defs tool_zip_def record_path_def installed_world_def)

subsection \<open>\<^verbatim>\<open>Install\<close> drops the error of \<^verbatim>\<open>placeFiles\<close>\<close>

text \<open>
  C1. The claim: when \<^verbatim>\<open>placeFiles\<close> returns an error, \<^verbatim>\<open>Install\<close> fails and performs
  none of the later steps. The code at this input: the asset archive cannot be opened,
  \<^verbatim>\<open>placeFiles\<close> returns that error, and \<^verbatim>\<open>Install\<close> runs the post-install command,
  writes the record and returns \<^verbatim>\<open>nil\<close>.
\<close>

theorem Install_ignores_placeFiles_error:
  "placeFiles (sample_env tool_zip)
     (Metadata (sample_tooth ''https://a.b/c.zip'' [] [''echo post''] [tool_rule]))
     [''asset.zip''] [] sample_world = (Some OpenArchiveFailed, sample_world) \<and>
   Install (sample_env tool_zip) (sample_tooth ''https://a.b/c.zip'' [] [''echo post''] [tool_rule])
     [''asset.zip''] sample_world =
     (None, \<lparr>files = (files sample_world)(record_path \<mapsto> File ''{tooth:a.b/c}''),
             trace = [Ran ''echo post'', WroteMetadata record_path ''{tooth:a.b/c}'']\<rparr>)"
  by (simp add: model_defs sample_defs tool_zip_def record_path_def)

text \<open>
  C5. The claim: a rule whose destination exists makes the install fail with
  "destination already exists". The code at this input: \<open>tool\<close> exists in the workspace,
  \<^verbatim>\<open>placeFiles\<close> returns the conflict before it creates or copies anything, and
  \<^verbatim>\<open>Install\<close> goes on, writes the record and returns \<^verbatim>\<open>nil\<close>.
\<close>

theorem Install_succeeds_over_existing_destination:
  "placeFiles (sample_env tool_zip) (Metadata (sample_tooth '''' [] [] [tool_rule]))
     [''tooth.zip''] [] occupied_world = (Some (DestExists [''tool'']), occupied_world) \<and>
   Install (sample_env tool_zip) (sample_tooth '''' [] [] [tool_rule]) [] occupied_world =
     (None, \<lparr>files = (files occupied_world)(record_path \<mapsto> File ''{tooth:a.b/c}''),
             trace = [WroteMetadata record_path ''{tooth:a.b/c}'']\<rparr>)"
  by (simp add: model_defs sample_defs tool_zip_def record_path_def occupied_world_def)

text \<open>
  C8. The claim: the record is written only as the final step, so that when an earlier
  step fails no record is created. The code at this input: the placement step fails (the
  entry of the archive cannot be opened, nothing is placed at \<open>tool\<close>), and
  \<^verbatim>\<open>Install\<close> still returns \<^verbatim>\<open>nil\<close> and creates the record.
\<close>

theorem Install_writes_record_after_failed_placement:
  "fst (placeFiles (sample_env [\<lparr>Name = ''bin/tool'', payload = Unopenable\<rparr>])
          (Metadata (sample_tooth '''' [] [] [tool_rule])) [''tooth.zip''] [] sample_world) =
     Some OpenSourceFailed \<and>
   fst (Install (sample_env [\<lparr>Name = ''bin/tool'', payload = Unopenable\<rparr>])
          (sample_tooth '''' [] [] [tool_rule]) [] sample_world) = None \<and>
   files (snd (Install (sample_env [\<lparr>Name = ''bin/tool'', payload = Unopenable\<rparr>])
                 (sample_tooth '''' [] [] [tool_rule]) [] sample_world)) record_path =
     Some (File ''{tooth:a.b/c}'') \<and>
   files (snd (Install (sample_env [\<lparr>Name = ''bin/tool'', payload = Unopenable\<rparr>])
                 (sample_tooth '''' [] [] [tool_rule]) [] sample_world)) [''ws'', ''tool''] = None"
  by (simp add: model_defs sample_defs record_path_def)

subsection \<open>\<^verbatim>\<open>placeFiles\<close>: one rule\<close>

text \<open>
  C7, as amended. For every placement rule that is processed without error, the copies
  made are exactly one per non-directory entry whose parsed name equals the content root
  joined with the rule's source, in the archive's order and all to the rule's
  destination; the destination then holds the bytes of the last such entry, and no file
  when there is none.
\<close>

theorem placeFiles_rule_copies_matches:
  assumes "placeFiles_rule env wd root r pl w = (None, w')"
    and "Parse env (Dest pl) = Some relDest"
    and "Parse env (Src pl) = Some relSrc"
  shows "trace w' = trace w @ MadeDirs (butlast (wd @ relDest)) #
                      copies (wd @ relDest) (matches env (root @ relSrc) r) \<and>
         files w' (wd @ relDest) =
           (if matches env (root @ relSrc) r = [] then None
            else Some (File (content (payload (last (matches env (root @ relSrc) r))))))"
proof -
  from rule_effect [OF assms(1)] assms(2,3) have
    ne: "wd @ relDest \<noteq> []" and free: "files w (wd @ relDest) = None"
    and tr: "trace w' = trace w @ MadeDirs (butlast (wd @ relDest)) #
               copies (wd @ relDest) (matches env (root @ relSrc) r)"
    and fs: "\<And>q. files w' q =
               (if q = wd @ relDest \<and> matches env (root @ relSrc) r \<noteq> []
                then Some (File (content (payload (last (matches env (root @ relSrc) r)))))
                else if prefix q (butlast (wd @ relDest)) then Some Dir
                else files w q)"
    by auto
  have "\<not> prefix (wd @ relDest) (butlast (wd @ relDest))"
    using ne by (rule not_prefix_butlast)
  with free fs [of "wd @ relDest"] tr show ?thesis
    by simp
qed

theorem placeFiles_rule_copies_matches_witness:
  "placeFiles_rule (sample_env twice_zip) [''ws''] [''a''] twice_zip out_rule sample_world =
     (None, \<lparr>files = (files sample_world)([] \<mapsto> Dir, [''ws''] \<mapsto> Dir,
                        [''ws'', ''out.txt''] \<mapsto> File ''second''),
             trace = [MadeDirs [''ws''],
                      Created [''ws'', ''out.txt''], Copied [''ws'', ''out.txt''] ''first'',
                      Created [''ws'', ''out.txt''], Copied [''ws'', ''out.txt''] ''second'']\<rparr>) \<and>
   matches (sample_env twice_zip) [''a'', ''b.txt''] twice_zip =
     [\<lparr>Name = ''a/b.txt'', payload = Bytes ''first''\<rparr>,
      \<lparr>Name = ''a/b.txt'', payload = Bytes ''second''\<rparr>]"
proof -
  let ?w = "\<lparr>files = (files sample_world)([] \<mapsto> Dir, [''ws''] \<mapsto> Dir,
                        [''ws'', ''out.txt''] \<mapsto> File ''second''),
             trace = [MadeDirs [''ws''],
                      Created [''ws'', ''out.txt''], Copied [''ws'', ''out.txt''] ''first'',
                      Created [''ws'', ''out.txt''], Copied [''ws'', ''out.txt''] ''second'']\<rparr>"
  have h: "placeFiles_rule (sample_env twice_zip) [''ws''] [''a''] twice_zip out_rule sample_world =
     (None, ?w)"
    by (simp add: model_defs sample_defs twice_zip_def out_rule_def)
  have d: "Parse (sample_env twice_zip) (Dest out_rule) = Some [''out.txt'']"
    by (simp add: model_defs sample_defs out_rule_def)
  have s: "Parse (sample_env twice_zip) (Src out_rule) = Some [''b.txt'']"
    by (simp add: model_defs sample_defs out_rule_def)
  have m: "matches (sample_env twice_zip) [''a'', ''b.txt''] twice_zip =
     [\<lparr>Name = ''a/b.txt'', payload = Bytes ''first''\<rparr>,
      \<lparr>Name = ''a/b.txt'', payload = Bytes ''second''\<rparr>]"
    by (simp add: matches_def model_defs sample_defs twice_zip_def)
  from placeFiles_rule_copies_matches [OF h d s] h m show ?thesis
    by simp
qed

text \<open>
  C7 as stated fails for a rule that is not processed to its end: the entry
  \<open>bin/tool\<close> is the one the rule names, the destination exists, and nothing is copied.
\<close>

theorem placeFiles_rule_copies_matches_counterexample:
  "matches (sample_env tool_zip) [''bin'', ''tool''] tool_zip = tool_zip \<and>
   placeFiles_rule (sample_env tool_zip) [''ws''] [] tool_zip tool_rule occupied_world =
     (Some (DestExists [''tool'']), occupied_world) \<and>
   files occupied_world [''ws'', ''tool''] = Some (File ''mine'')"
  by (simp add: matches_def model_defs sample_defs tool_zip_def occupied_world_def)

text \<open>
  C9. For every placement rule that is processed without error, the parent of the
  destination and all its ancestors are directories afterwards, whether or not an entry
  matches; when no entry matches, creating them is the rule's only effect, and there is
  no file at the destination.
\<close>

theorem placeFiles_rule_creates_parent_directories:
  assumes "placeFiles_rule env wd root r pl w = (None, w')"
    and "Parse env (Dest pl) = Some relDest"
    and "Parse env (Src pl) = Some relSrc"
  shows "(\<forall>q. prefix q (butlast (wd @ relDest)) \<longrightarrow> files w' q = Some Dir) \<and>
         (matches env (root @ relSrc) r = [] \<longrightarrow>
            files w' (wd @ relDest) = None \<and>
            trace w' = trace w @ [MadeDirs (butlast (wd @ relDest))] \<and>
            (\<forall>q. \<not> prefix q (butlast (wd @ relDest)) \<longrightarrow> files w' q = files w q))"
proof -
  from rule_effect [OF assms(1)] assms(2,3) have
    ne: "wd @ relDest \<noteq> []" and free: "files w (wd @ relDest) = None"
    and tr: "trace w' = trace w @ MadeDirs (butlast (wd @ relDest)) #
               copies (wd @ relDest) (matches env (root @ relSrc) r)"
    and fs: "\<And>q. files w' q =
               (if q = wd @ relDest \<and> matches env (root @ relSrc) r \<noteq> []
                then Some (File (content (payload (last (matches env (root @ relSrc) r)))))
                else if prefix q (butlast (wd @ relDest)) then Some Dir
                else files w q)"
    by auto
  have np: "\<not> prefix (wd @ relDest) (butlast (wd @ relDest))"
    using ne by (rule not_prefix_butlast)
  have "files w' q = Some Dir" if "prefix q (butlast (wd @ relDest))" for q
    using that np fs [of q] by auto
  moreover have "files w' (wd @ relDest) = None" if "matches env (root @ relSrc) r = []"
    using that np free fs [of "wd @ relDest"] by simp
  moreover have "trace w' = trace w @ [MadeDirs (butlast (wd @ relDest))]"
    if "matches env (root @ relSrc) r = []"
    using that tr by (simp add: copies_def)
  moreover have "files w' q = files w q"
    if "matches env (root @ relSrc) r = []" "\<not> prefix q (butlast (wd @ relDest))" for q
    using that fs [of q] by simp
  ultimately show ?thesis by blast
qed

theorem placeFiles_rule_creates_parent_directories_witness:
  "placeFiles_rule (sample_env tool_zip) [''ws''] [] tool_zip nomatch_rule sample_world =
     (None, \<lparr>files = (files sample_world)([] \<mapsto> Dir, [''ws''] \<mapsto> Dir, [''ws'', ''opt''] \<mapsto> Dir,
                        [''ws'', ''opt'', ''bin''] \<mapsto> Dir),
             trace = [MadeDirs [''ws'', ''opt'', ''bin'']]\<rparr>) \<and>
   files sample_world [''ws'', ''opt''] = None \<and>
   files sample_world [''ws'', ''opt'', ''bin''] = None \<and>
   matches (sample_env tool_zip) [''bin'', ''none''] tool_zip = [] \<and>
   files (snd (placeFiles_rule (sample_env tool_zip) [''ws''] [] tool_zip nomatch_rule sample_world))
     [''ws'', ''opt'', ''bin'', ''tool''] = None"
proof -
  let ?w = "\<lparr>files = (files sample_world)([] \<mapsto> Dir, [''ws''] \<mapsto> Dir, [''ws'', ''opt''] \<mapsto> Dir,
                        [''ws'', ''opt'', ''bin''] \<mapsto> Dir),
             trace = [MadeDirs [''ws'', ''opt'', ''bin'']]\<rparr>"
  have h: "placeFiles_rule (sample_env tool_zip) [''ws''] [] tool_zip nomatch_rule sample_world =
     (None, ?w)"
    by (simp add: model_defs sample_defs tool_zip_def nomatch_rule_def)
  have d: "Parse (sample_env tool_zip) (Dest nomatch_rule) = Some [''opt'', ''bin'', ''tool'']"
    by (simp add: model_defs sample_defs tool_zip_def nomatch_rule_def)
  have s: "Parse (sample_env tool_zip) (Src nomatch_rule) = Some [''bin'', ''none'']"
    by (simp add: model_defs sample_defs tool_zip_def nomatch_rule_def)
  have m: "matches (sample_env tool_zip) ([] @ [''bin'', ''none'']) tool_zip = []"
    by (simp add: matches_def model_defs sample_defs tool_zip_def)
  have o: "files sample_world [''ws'', ''opt''] = None" "files sample_world [''ws'', ''opt'', ''bin''] = None"
    by (simp_all add: sample_world_def)
  from placeFiles_rule_creates_parent_directories [OF h d s] m
  have "files ?w ([''ws''] @ [''opt'', ''bin'', ''tool'']) = None"
    by blast
  with h m o show ?thesis
    by simp
qed

subsection \<open>\<^verbatim>\<open>placeFiles\<close>: two rules with one destination\<close>

text \<open>
  C10. Two rules of one descriptor share a destination (their destinations parse to the
  same path), the rules before the later one are processed without error, and the earlier
  one places a file (an entry of the archive matches its source). Then \<^verbatim>\<open>placeFiles\<close> fails at the later rule with
  "destination already exists", in the world the rules before it left: the check reads
  the file system as it is at that moment, files placed by the same call included.
\<close>

theorem placeFiles_conflicts_with_own_file:
  assumes "Getwd env = Some s" and "Parse env s = Some wd"
    and "OpenReader env (files w) assetArchiveFilePath = Some r"
    and "Place md = pre @ later # post"
    and "earlier \<in> set pre" and "Parse env (Dest later) = Parse env (Dest earlier)"
    and "placeFiles_rules env wd root r pre w = (None, w1)"
    and "Parse env (Src earlier) = Some relSrc"
    and "matches env (root @ relSrc) r \<noteq> []"
  shows "\<exists>relDest. Parse env (Dest later) = Some relDest \<and>
           placeFiles env md assetArchiveFilePath root w = (Some (DestExists relDest), w1)"
proof -
  from rules_success_each [OF assms(7) assms(5)] obtain v v' where
    "placeFiles_rule env wd root r earlier v = (None, v')"
    by blast
  then obtain relDest where d: "Parse env (Dest earlier) = Some relDest"
    by (rule rule_success)
  from rules_place [OF assms(7) assms(5) d assms(8) assms(9)]
  have there: "files w1 (wd @ relDest) \<noteq> None" .
  then have "placeFiles_rule env wd root r later w1 = (Some (DestExists relDest), w1)"
    using d assms(6) by (simp add: placeFiles_rule_def os_Stat_def)
  then have "placeFiles_rules env wd root r (later # post) w1 = (Some (DestExists relDest), w1)"
    by simp
  with rules_append [OF assms(7), of "later # post"]
  have "placeFiles_rules env wd root r (Place md) w = (Some (DestExists relDest), w1)"
    using assms(4) by simp
  then have "placeFiles env md assetArchiveFilePath root w = (Some (DestExists relDest), w1)"
    using assms(1,2,3) by (simp add: placeFiles_def)
  with d assms(6) show ?thesis by auto
qed

theorem placeFiles_conflicts_with_own_file_witness:
  "placeFiles (sample_env tool_zip) (Metadata (sample_tooth '''' [] [] [tool_rule, again_rule]))
     [''tooth.zip''] [] sample_world =
     (Some (DestExists [''tool'']),
      \<lparr>files = (files sample_world)([] \<mapsto> Dir, [''ws''] \<mapsto> Dir, [''ws'', ''tool''] \<mapsto> File ''X''),
       trace = [MadeDirs [''ws''], Created [''ws'', ''tool''], Copied [''ws'', ''tool''] ''X'']\<rparr>) \<and>
   placeFiles_rules (sample_env tool_zip) [''ws''] [] tool_zip [tool_rule] sample_world =
     (None,
      \<lparr>files = (files sample_world)([] \<mapsto> Dir, [''ws''] \<mapsto> Dir, [''ws'', ''tool''] \<mapsto> File ''X''),
       trace = [MadeDirs [''ws''], Created [''ws'', ''tool''], Copied [''ws'', ''tool''] ''X'']\<rparr>)"
proof -
  let ?e = "sample_env tool_zip"
  let ?md = "Metadata (sample_tooth '''' [] [] [tool_rule, again_rule])"
  let ?w1 = "\<lparr>files = (files sample_world)([] \<mapsto> Dir, [''ws''] \<mapsto> Dir, [''ws'', ''tool''] \<mapsto> File ''X''),
       trace = [MadeDirs [''ws''], Created [''ws'', ''tool''], Copied [''ws'', ''tool''] ''X'']\<rparr>"
  have a1: "Getwd ?e = Some ''/ws''" by (simp add: sample_env_def)
  have a2: "Parse ?e ''/ws'' = Some [''ws'']"
    by (simp add: sample_defs)
  have a3: "OpenReader ?e (files sample_world) [''tooth.zip''] = Some tool_zip"
    by (simp add: sample_env_def)
  have a4: "Place ?md = [tool_rule] @ again_rule # []" by (simp add: sample_tooth_def)
  have a5: "tool_rule \<in> set [tool_rule]" by simp
  have a6: "Parse ?e (Dest again_rule) = Parse ?e (Dest tool_rule)"
    by (simp add: tool_rule_def again_rule_def)
  have a7: "placeFiles_rules ?e [''ws''] [] tool_zip [tool_rule] sample_world = (None, ?w1)"
    by (simp add: model_defs sample_defs tool_zip_def again_rule_def)
  have a8: "Parse ?e (Src tool_rule) = Some [''bin'', ''tool'']"
    by (simp add: sample_defs)
  have a9: "matches ?e ([] @ [''bin'', ''tool'']) tool_zip \<noteq> []"
    by (simp add: matches_def model_defs sample_defs tool_zip_def again_rule_def)
  have d: "Parse ?e (Dest again_rule) = Some [''tool'']"
    by (simp add: model_defs sample_defs tool_zip_def again_rule_def)
  from placeFiles_conflicts_with_own_file [OF a1 a2 a3 a4 a5 a6 a7 a8 a9] d a7
  show ?thesis by auto
qed

subsection \<open>What holds beside the dropped error\<close>

text \<open>
  No error of \<^verbatim>\<open>placeFiles\<close> is ever the error of \<^verbatim>\<open>Install\<close>, on any input.
\<close>

lemma Install_never_reports_placement:
  assumes "fst (Install env a p w) = Some e"
  shows "e \<notin> {GetwdFailed, ParseWorkspaceFailed, OpenArchiveFailed, ParseDestFailed, MkdirFailed,
               ParseSrcFailed, ParseFileFailed, OpenSourceFailed, CreateDestFailed, CopyFailed}"
    and "e \<noteq> DestExists d"
proof -
  have m: "x \<in> {MarshalFailed, MetadataDirFailed, MustParsePanic, WriteMetadataFailed}"
    if "fst (writeMetadata env a w3) = Some x" for w3 x
    using that writeMetadata_error [of env a w3] by auto
  from assms have "e \<in> {CheckInstalledFailed, AlreadyInstalled (ToothRepoPath (Metadata a)),
      GetAssetURLFailed, AssetConfig, MarshalFailed, MetadataDirFailed, MustParsePanic,
      WriteMetadataFailed} \<or> (\<exists>c. e = PreInstallFailed c) \<or> (\<exists>c. e = PostInstallFailed c)"
    by (auto simp: Install_def split: option.splits prod.splits if_splits dest!: m)
  then show
    "e \<notin> {GetwdFailed, ParseWorkspaceFailed, OpenArchiveFailed, ParseDestFailed, MkdirFailed,
               ParseSrcFailed, ParseFileFailed, OpenSourceFailed, CreateDestFailed, CopyFailed}"
    and "e \<noteq> DestExists d"
    by auto
qed

text \<open>
  Within \<^verbatim>\<open>placeFiles\<close> the destination check does what the spec says: the rule whose
  destination exists stops the loop, in the world the rules before it left.
\<close>

lemma placeFiles_rules_stop_at_existing_destination:
  assumes "placeFiles_rules env wd root r pre w = (None, w1)"
    and "Parse env (Dest pl) = Some relDest" and "os_Stat wd relDest w1"
  shows "placeFiles_rules env wd root r (pre @ pl # post) w = (Some (DestExists relDest), w1)"
proof -
  from assms(2,3) have "placeFiles_rule env wd root r pl w1 = (Some (DestExists relDest), w1)"
    by (simp add: placeFiles_rule_def)
  then have "placeFiles_rules env wd root r (pl # post) w1 = (Some (DestExists relDest), w1)"
    by simp
  with rules_append [OF assms(1), of "pl # post"] show ?thesis
    by simp
qed

text \<open>
  A successful \<^verbatim>\<open>Install\<close> ends with the write of the record: the file
  \<open>metadataDir/QueryEscape(identity).json\<close> holds the serialized descriptor, and the write
  is the last effect. A write step that fails leaves the world as it was.
\<close>

lemma Install_success_writes_record:
  assumes "Install env a p w = (None, w')"
  shows "\<exists>json dir name w3.
           MarshalJSON env (Metadata a) = Some json \<and> MetadataDir env = Some dir \<and>
           Parse env (QueryEscape env (ToothRepoPath (Metadata a)) @ ''.json'') = Some name \<and>
           runCommands env (PostInstall (Metadata a)) (placed env a p
             (snd (runCommands env (PreInstall (Metadata a)) w))) = (None, w3) \<and>
           files w' (dir @ name) = Some (File json) \<and>
           trace w' = trace w3 @ [WroteMetadata (dir @ name) json]"
  using assms
  by (auto simp: Install_def writeMetadata_def os_WriteFile_def
      split: option.splits prod.splits if_splits)

lemma writeMetadata_failure_writes_nothing:
  "writeMetadata env a w = (Some e, w') \<Longrightarrow> w' = w"
  by (auto simp: writeMetadata_def split: option.splits)

end
